theory Spec2Isabelle
  imports Complex_Main "HOL-Library.AList" "HOL-Library.Multiset" "HOL-Library.Monad_Syntax"
begin

section \<open>Python values\<close>

text \<open>
  A Python \<open>str\<close> is a sequence of Unicode code points and \<open>len\<close> counts code points,
  so a string is a list of code points. Python's \<open>int\<close> is \<^typ>\<open>int\<close>; a \<open>float\<close> is
  modelled by the real number it denotes.
\<close>

type_synonym pystr = "nat list"

datatype py_error = IndexError | ValueError | TypeError | ConfigurationError

definition raises :: "py_error + 'a \<Rightarrow> bool" where
  "raises r = (case r of Inl _ \<Rightarrow> True | Inr _ \<Rightarrow> False)"

text \<open>
  \<open>str.isspace\<close> on one code point, the characters \<open>str.strip\<close> removes and the regular
  expression \<open>\s\<close> matches (the table of the Unicode database, version 14).
\<close>

definition is_space :: "nat \<Rightarrow> bool" where
  "is_space c =
     ((9 \<le> c \<and> c \<le> 13) \<or> (28 \<le> c \<and> c \<le> 32) \<or> c = 133 \<or> c = 160 \<or> c = 5760
      \<or> (8192 \<le> c \<and> c \<le> 8202) \<or> c = 8232 \<or> c = 8233 \<or> c = 8239 \<or> c = 8287 \<or> c = 12288)"

definition lstrip :: "pystr \<Rightarrow> pystr" where
  "lstrip s = dropWhile is_space s"

definition rstrip :: "pystr \<Rightarrow> pystr" where
  "rstrip s = rev (dropWhile is_space (rev s))"

definition strip :: "pystr \<Rightarrow> pystr" where
  "strip s = lstrip (rstrip s)"

text \<open>\<open>xs[:n]\<close>: a negative bound counts from the end.\<close>

definition py_prefix :: "int \<Rightarrow> 'a list \<Rightarrow> 'a list" where
  "py_prefix n xs = (if 0 \<le> n then take (nat n) xs else take (nat (int (length xs) + n)) xs)"

text \<open>\<open>xs[n:]\<close>\<close>

definition py_suffix :: "int \<Rightarrow> 'a list \<Rightarrow> 'a list" where
  "py_suffix n xs = (if 0 \<le> n then drop (nat n) xs else drop (nat (int (length xs) + n)) xs)"

text \<open>
  \<open>s.rfind(sub)\<close> and \<open>s.find(sub)\<close> for a non-empty \<open>sub\<close>: the highest and the lowest
  index at which \<open>sub\<close> occurs in \<open>s\<close>, or -1.
\<close>

definition occurs_at :: "'a list \<Rightarrow> 'a list \<Rightarrow> nat \<Rightarrow> bool" where
  "occurs_at s sub i = (take (length sub) (drop i s) = sub)"

definition rfind :: "'a list \<Rightarrow> 'a list \<Rightarrow> int" where
  "rfind s sub =
     (case filter (occurs_at s sub) (rev [0..<Suc (length s - length sub)]) of
        [] \<Rightarrow> - 1
      | i # _ \<Rightarrow> int i)"

definition find_str :: "'a list \<Rightarrow> 'a list \<Rightarrow> int" where
  "find_str s sub =
     (case filter (occurs_at s sub) [0..<Suc (length s - length sub)] of
        [] \<Rightarrow> - 1
      | i # _ \<Rightarrow> int i)"

text \<open>\<open>sep.join(parts)\<close>\<close>

fun join :: "pystr \<Rightarrow> pystr list \<Rightarrow> pystr" where
  "join sep [] = []"
| "join sep [p] = p"
| "join sep (p # ps) = p @ sep @ join sep ps"

text \<open>\<open>str(n)\<close> for an integer: its decimal digits.\<close>

fun str_of_nat :: "nat \<Rightarrow> pystr" where
  "str_of_nat n = (if n < 10 then [48 + n] else str_of_nat (n div 10) @ [48 + n mod 10])"

definition str_of_int :: "int \<Rightarrow> pystr" where
  "str_of_int i = (if i < 0 then 45 # str_of_nat (nat (- i)) else str_of_nat (nat i))"

text \<open>
  The regular expression \<open>\d\<close> on a \<open>str\<close> pattern: the decimal digits of the Unicode
  database (category Nd, version 14), as ranges of code points.
\<close>

definition decimal_ranges :: "(nat \<times> nat) list" where
  "decimal_ranges =
     [(48, 57), (1632, 1641), (1776, 1785), (1984, 1993), (2406, 2415), (2534, 2543),
      (2662, 2671), (2790, 2799), (2918, 2927), (3046, 3055), (3174, 3183), (3302, 3311),
      (3430, 3439), (3558, 3567), (3664, 3673), (3792, 3801), (3872, 3881), (4160, 4169),
      (4240, 4249), (6112, 6121), (6160, 6169), (6470, 6479), (6608, 6617), (6784, 6793),
      (6800, 6809), (6992, 7001), (7088, 7097), (7232, 7241), (7248, 7257), (42528, 42537),
      (43216, 43225), (43264, 43273), (43472, 43481), (43504, 43513), (43600, 43609),
      (44016, 44025), (65296, 65305), (66720, 66729), (68912, 68921), (69734, 69743),
      (69872, 69881), (69942, 69951), (70096, 70105), (70384, 70393), (70736, 70745),
      (70864, 70873), (71248, 71257), (71360, 71369), (71472, 71481), (71904, 71913),
      (72016, 72025), (72784, 72793), (73040, 73049), (73120, 73129), (92768, 92777),
      (92864, 92873), (93008, 93017), (120782, 120831), (123200, 123209), (123632, 123641),
      (125264, 125273), (130032, 130041)]"

definition is_decimal :: "nat \<Rightarrow> bool" where
  "is_decimal c = list_ex (\<lambda>(lo, hi). lo \<le> c \<and> c \<le> hi) decimal_ranges"

section \<open>The chunker (Agent/utils/chunking.py)\<close>

subsection \<open>Configuration\<close>

record chunker =
  chunk_size_target :: int
  chunk_size_max :: int
  overlap :: int
  absolute_max :: int

text \<open>
  \<open>PolicyDocumentChunker.__init__\<close>: four assignments (the delimiter lists and the clause
  patterns it also sets are constants, defined below). It has no \<open>raise\<close>.
\<close>

definition PolicyDocumentChunker_init :: "int \<Rightarrow> int \<Rightarrow> int \<Rightarrow> int \<Rightarrow> py_error + chunker" where
  "PolicyDocumentChunker_init target mx ov amax =
     Inr \<lparr>chunk_size_target = target, chunk_size_max = mx, overlap = ov, absolute_max = amax\<rparr>"

subsection \<open>Delimiters and clause patterns\<close>

text \<open>
  \<open>self.paragraph_delimiters\<close>: two newlines, three newlines, CR LF CR LF.
  \<open>self.sentence_delimiters\<close>: the ideographic full stop and the full-width exclamation
  mark, question mark and semicolon.
\<close>

definition paragraph_delimiters :: "pystr list" where
  "paragraph_delimiters = [[10, 10], [10, 10, 10], [13, 10, 13, 10]]"

definition sentence_delimiters :: "pystr list" where
  "sentence_delimiters = [[12290], [65281], [65311], [65307]]"

text \<open>The character class of the ten Chinese numerals from one to ten.\<close>

definition is_cn_numeral :: "nat \<Rightarrow> bool" where
  "is_cn_numeral c = (c \<in> {19968, 20108, 19977, 22235, 20116, 20845, 19971, 20843, 20061, 21313})"

text \<open>
  \<open>re.match\<close> of a pattern \<open>^ open? class+ close\<close>, where no character of \<open>close\<close> is in
  the class, so that the greedy \<open>+\<close> never gives a character back.
\<close>

definition match_run :: "pystr \<Rightarrow> (nat \<Rightarrow> bool) \<Rightarrow> nat list \<Rightarrow> pystr \<Rightarrow> bool" where
  "match_run opening cls closing s =
     (take (length opening) s = opening
      \<and> (let rest = drop (length opening) s; run = takeWhile cls rest
         in run \<noteq> [] \<and> (case drop (length run) rest of [] \<Rightarrow> False | c # _ \<Rightarrow> c \<in> set closing)))"

text \<open>
  \<open>self.clause_patterns\<close>, in their order; the last one is a bracketed tag, where \<open>.*?\<close>
  does not cross a newline.
\<close>

definition match_tag :: "pystr \<Rightarrow> bool" where
  "match_tag s =
     (case s of
        [] \<Rightarrow> False
      | c # rest \<Rightarrow>
          c = 12304
          \<and> (case dropWhile (\<lambda>x. x \<noteq> 10 \<and> x \<noteq> 12305) rest of [] \<Rightarrow> False | x # _ \<Rightarrow> x = 12305))"

definition clause_patterns :: "(pystr \<Rightarrow> bool) list" where
  "clause_patterns =
     [match_run [] is_cn_numeral [12289, 46],
      match_run [65288] is_cn_numeral [65289],
      match_run [] is_decimal [12289, 46],
      match_run [40] is_decimal [41],
      match_run [31532] (\<lambda>c. is_cn_numeral c \<or> is_decimal c) [26465, 31456, 33410],
      match_tag]"

definition is_clause_start :: "pystr \<Rightarrow> bool" where
  "is_clause_start paragraph = list_ex (\<lambda>pattern. pattern (strip paragraph)) clause_patterns"

subsection \<open>Truncation\<close>

text \<open>
  The two loops of \<open>_smart_truncate\<close> over the delimiters, on the pair of \<open>best_pos\<close> and
  \<open>best_priority\<close>. The comparisons of a position with \<open>max_length * 0.5\<close>, \<open>0.6\<close> and
  \<open>0.8\<close> are comparisons of reals.
\<close>

definition paragraph_step :: "pystr \<Rightarrow> int \<Rightarrow> int \<times> int \<Rightarrow> pystr \<Rightarrow> int \<times> int" where
  "paragraph_step truncated max_length best delimiter =
     (let pos = rfind truncated delimiter in
      if pos > fst best \<and> real_of_int pos > real_of_int max_length * 0.5
      then (pos + int (length delimiter), 1) else best)"

definition sentence_step :: "pystr \<Rightarrow> int \<Rightarrow> int \<times> int \<Rightarrow> pystr \<Rightarrow> int \<times> int" where
  "sentence_step truncated max_length best delimiter =
     (let pos = rfind truncated delimiter in
      if pos > fst best \<and> real_of_int pos > real_of_int max_length * 0.6
      then (pos + int (length delimiter), 2) else best)"

definition best_cut :: "pystr \<Rightarrow> int \<Rightarrow> int \<times> int" where
  "best_cut truncated max_length =
     (let best = foldl (paragraph_step truncated max_length) (- 1, - 1) paragraph_delimiters
      in if fst best < 0 then foldl (sentence_step truncated max_length) best sentence_delimiters
         else best)"

definition smart_truncate :: "pystr \<Rightarrow> int \<Rightarrow> pystr" where
  "smart_truncate text max_length =
     (if int (length text) \<le> max_length then text
      else
        let truncated = py_prefix max_length text;
            best_pos = fst (best_cut truncated max_length)
        in if best_pos > 0 then strip (py_prefix best_pos text)
           else
             let space_pos = rfind truncated [32]
             in if real_of_int space_pos > real_of_int max_length * 0.8
                then strip (py_prefix space_pos text)
                else strip truncated)"

subsection \<open>Overlap\<close>

text \<open>
  \<open>_extract_overlap_text\<close>: the loop returns at the first sentence delimiter found in the
  first 30 percent of the window.
\<close>

fun overlap_after :: "pystr \<Rightarrow> int \<Rightarrow> pystr list \<Rightarrow> pystr" where
  "overlap_after truncated target_length [] = strip truncated"
| "overlap_after truncated target_length (delimiter # rest) =
     (let pos = find_str truncated delimiter in
      if pos > 0 \<and> real_of_int pos < real_of_int target_length * 0.3
      then strip (py_suffix (pos + int (length delimiter)) truncated)
      else overlap_after truncated target_length rest)"

definition extract_overlap_text :: "pystr \<Rightarrow> int \<Rightarrow> pystr" where
  "extract_overlap_text text target_length =
     (if int (length text) \<le> target_length then text
      else
        let start_pos = int (length text) - target_length;
            truncated = py_suffix start_pos text
        in overlap_after truncated target_length sentence_delimiters)"

subsection \<open>Paragraphs\<close>

text \<open>
  \<open>re.split(r'\n\s*\n+', content)\<close>. A match starts at a newline; the greedy \<open>\s*\<close> takes the
  whole run of white space that follows and gives characters back until the rest of the
  pattern finds its newline, so the match ends behind the last newline of that run, and
  there is no match at this newline if the run has none. The list holds the pieces
  between the matches.
\<close>

function split_blank_lines :: "pystr \<Rightarrow> pystr \<Rightarrow> pystr list" where
  "split_blank_lines piece [] = [piece]"
| "split_blank_lines piece (c # rest) =
     (let run = takeWhile is_space rest in
      if c = 10 \<and> 10 \<in> set run
      then piece # split_blank_lines [] (drop (length run - length (takeWhile (\<lambda>x. x \<noteq> 10) (rev run))) rest)
      else split_blank_lines (piece @ [c]) rest)"
  by pat_completeness auto
termination
  by (relation "measure (\<lambda>(piece, s). length s)") auto

text \<open>
  \<open>re.split(r'(\n[...]+[...])', content)\<close> with the Chinese numerals and the enumeration
  comma or the dot: the pattern is in a group, so the list holds the pieces and, between
  them, the matched markers.
\<close>

function split_clause_markers :: "pystr \<Rightarrow> pystr \<Rightarrow> pystr list" where
  "split_clause_markers piece [] = [piece]"
| "split_clause_markers piece (c # rest) =
     (if c = 10 \<and> match_run [] is_cn_numeral [12289, 46] rest
      then piece # (c # take (Suc (length (takeWhile is_cn_numeral rest))) rest)
             # split_clause_markers [] (drop (Suc (length (takeWhile is_cn_numeral rest))) rest)
      else split_clause_markers (piece @ [c]) rest)"
  by pat_completeness auto
termination
  by (relation "measure (\<lambda>(piece, s). length s)") auto

text \<open>
  The loop \<open>for i in range(0, len(clause_split) - 1, 2)\<close>: each element at an even index is
  joined with its successor; a last element without successor is left out.
\<close>

fun merge_pairs :: "pystr list \<Rightarrow> pystr list" where
  "merge_pairs (a # b # rest) = (a @ b) # merge_pairs rest"
| "merge_pairs rest = []"

definition split_into_paragraphs :: "pystr \<Rightarrow> pystr list" where
  "split_into_paragraphs content =
     (let paragraphs = split_blank_lines [] content;
          paragraphs =
            (if length paragraphs < 3 then
               (let clause_split = split_clause_markers [] content in
                if length clause_split > length paragraphs then
                  (let merged = merge_pairs clause_split in
                   if merged \<noteq> [] then merged else paragraphs)
                else paragraphs)
             else paragraphs)
      in map strip (filter (\<lambda>p. strip p \<noteq> [] \<and> length (strip p) > 10) paragraphs))"

subsection \<open>Chunks\<close>

text \<open>The dataclass \<open>DocumentChunk\<close>; the chunk type is the string "clause" or "paragraph".\<close>

record DocumentChunk =
  chunk_id :: pystr
  doc_id :: pystr
  chunk_index :: int
  chunk_type :: pystr
  content :: pystr
  title :: pystr
  timestamp :: pystr
  industries :: pystr
  investment_relevance :: pystr
  report_series :: pystr
  industry_policy_segments :: pystr

definition clause_type :: pystr where
  "clause_type = [99, 108, 97, 117, 115, 101]"

definition paragraph_type :: pystr where
  "paragraph_type = [112, 97, 114, 97, 103, 114, 97, 112, 104]"

text \<open>
  The arguments of \<open>chunk_document\<close> that every chunk copies, and the constructor call
  \<open>DocumentChunk(chunk_id=f"{doc_id}_chunk_{chunk_idx}", ...)\<close>.
\<close>

record document =
  d_doc_id :: pystr
  d_title :: pystr
  d_timestamp :: pystr
  d_industries :: pystr
  d_investment_relevance :: pystr
  d_report_series :: pystr
  d_industry_policy_segments :: pystr

definition make_chunk :: "document \<Rightarrow> int \<Rightarrow> pystr \<Rightarrow> pystr \<Rightarrow> DocumentChunk" where
  "make_chunk doc chunk_idx ctype chunk_content =
     \<lparr>chunk_id = d_doc_id doc @ [95, 99, 104, 117, 110, 107, 95] @ str_of_int chunk_idx,
      doc_id = d_doc_id doc, chunk_index = chunk_idx, chunk_type = ctype,
      content = chunk_content, title = d_title doc, timestamp = d_timestamp doc,
      industries = d_industries doc, investment_relevance = d_investment_relevance doc,
      report_series = d_report_series doc,
      industry_policy_segments = d_industry_policy_segments doc\<rparr>"

text \<open>The local variables of the loop over the paragraphs.\<close>

record chunking =
  chunks :: "DocumentChunk list"
  current_chunk_parts :: "pystr list"
  current_chunk_size :: int
  chunk_idx :: int

text \<open>
  Appending the accumulated parts as one chunk: \<open>'\n\n'.join\<close>, \<open>_smart_truncate\<close>,
  \<open>chunks.append\<close>, \<open>chunk_idx += 1\<close>.
\<close>

definition emit :: "chunker \<Rightarrow> document \<Rightarrow> pystr \<Rightarrow> chunking \<Rightarrow> chunking" where
  "emit ck doc ctype st =
     st\<lparr>chunks := chunks st @
            [make_chunk doc (chunk_idx st) ctype
               (smart_truncate (join [10, 10] (current_chunk_parts st)) (absolute_max ck))],
        chunk_idx := chunk_idx st + 1\<rparr>"

text \<open>
  The \<open>while len(remaining) > 0\<close> loop that cuts a paragraph longer than \<open>absolute_max\<close>; it
  need not end, and then it has no value.
\<close>

partial_function (option) split_long ::
  "chunker \<Rightarrow> document \<Rightarrow> pystr \<Rightarrow> DocumentChunk list \<Rightarrow> int \<Rightarrow> (DocumentChunk list \<times> int) option" where
  "split_long ck doc remaining chs idx =
     (if length remaining > 0 then
        (if int (length remaining) \<le> absolute_max ck then
           (if remaining \<noteq> []
            then split_long ck doc [] (chs @ [make_chunk doc idx paragraph_type remaining]) (idx + 1)
            else split_long ck doc [] chs idx)
         else
           (if smart_truncate remaining (absolute_max ck) \<noteq> []
            then split_long ck doc
                   (lstrip (drop (length (smart_truncate remaining (absolute_max ck))) remaining))
                   (chs @ [make_chunk doc idx paragraph_type (smart_truncate remaining (absolute_max ck))])
                   (idx + 1)
            else split_long ck doc
                   (lstrip (drop (length (smart_truncate remaining (absolute_max ck))) remaining))
                   chs idx))
      else Some (chs, idx))"

text \<open>The body of \<open>for para in paragraphs\<close>.\<close>

definition next_parts :: "chunker \<Rightarrow> pystr \<Rightarrow> chunking \<Rightarrow> chunking" where
  "next_parts ck para st =
     (if overlap ck > 0 \<and> current_chunk_parts st \<noteq> [] then
        (let last_part = last (current_chunk_parts st);
             overlap_text = (if int (length last_part) > overlap ck
                             then extract_overlap_text last_part (overlap ck) else last_part)
         in st\<lparr>current_chunk_parts := (if overlap_text \<noteq> [] then [overlap_text, para] else [para]),
               current_chunk_size := (if overlap_text \<noteq> []
                                      then int (length overlap_text) + int (length para)
                                      else int (length para))\<rparr>)
      else st\<lparr>current_chunk_parts := [para], current_chunk_size := int (length para)\<rparr>)"

definition add_paragraph :: "chunker \<Rightarrow> document \<Rightarrow> pystr \<Rightarrow> chunking \<Rightarrow> chunking" where
  "add_paragraph ck doc para st =
     (let para_size = int (length para);
          is_clause = is_clause_start para;
          should_start_new =
            (is_clause \<or> current_chunk_size st + para_size > chunk_size_target ck
             \<or> (current_chunk_size st > 0 \<and> current_chunk_size st + para_size > chunk_size_max ck));
          st1 =
            (if should_start_new \<and> current_chunk_parts st \<noteq> [] then
               next_parts ck para
                 (emit ck doc (if list_ex is_clause_start (current_chunk_parts st)
                               then clause_type else paragraph_type) st)
             else st\<lparr>current_chunk_parts := current_chunk_parts st @ [para],
                     current_chunk_size := current_chunk_size st + para_size\<rparr>)
      in if current_chunk_size st1 > chunk_size_max ck
         then (emit ck doc paragraph_type st1)\<lparr>current_chunk_parts := [], current_chunk_size := 0\<rparr>
         else st1)"

definition loop_body :: "chunker \<Rightarrow> document \<Rightarrow> pystr \<Rightarrow> chunking \<Rightarrow> chunking option" where
  "loop_body ck doc para st =
     (if int (length para) > absolute_max ck then
        (let st1 = (if current_chunk_parts st \<noteq> []
                    then (emit ck doc paragraph_type st)\<lparr>current_chunk_parts := [], current_chunk_size := 0\<rparr>
                    else st)
         in case split_long ck doc para (chunks st1) (chunk_idx st1) of
              None \<Rightarrow> None
            | Some (chs, idx) \<Rightarrow> Some (st1\<lparr>chunks := chs, chunk_idx := idx\<rparr>))
      else Some (add_paragraph ck doc para st))"

fun chunk_loop :: "chunker \<Rightarrow> document \<Rightarrow> pystr list \<Rightarrow> chunking \<Rightarrow> chunking option" where
  "chunk_loop ck doc [] st = Some st"
| "chunk_loop ck doc (para # paragraphs) st =
     (case loop_body ck doc para st of
        None \<Rightarrow> None
      | Some st' \<Rightarrow> chunk_loop ck doc paragraphs st')"

text \<open>The final pass over the chunks.\<close>

definition enforce_max :: "chunker \<Rightarrow> DocumentChunk \<Rightarrow> DocumentChunk" where
  "enforce_max ck chunk =
     (if int (length (content chunk)) > absolute_max ck
      then chunk\<lparr>content := smart_truncate (content chunk) (absolute_max ck)\<rparr>
      else chunk)"

text \<open>
  \<open>chunk_document\<close>, with \<open>None\<close> for a call that does not return. The title, the timestamp
  and the industries are cut to 500, 150 and 500 characters first.
\<close>

definition chunk_document ::
  "chunker \<Rightarrow> pystr \<Rightarrow> pystr \<Rightarrow> pystr \<Rightarrow> pystr \<Rightarrow> pystr \<Rightarrow> pystr \<Rightarrow> pystr \<Rightarrow> pystr
     \<Rightarrow> DocumentChunk list option" where
  "chunk_document ck doc_id0 title0 content0 timestamp0 industries0 investment_relevance0
       report_series0 industry_policy_segments0 =
     (let doc = \<lparr>d_doc_id = doc_id0, d_title = py_prefix 500 title0,
                 d_timestamp = py_prefix 150 timestamp0, d_industries = py_prefix 500 industries0,
                 d_investment_relevance = investment_relevance0,
                 d_report_series = report_series0,
                 d_industry_policy_segments = industry_policy_segments0\<rparr>;
          paragraphs = split_into_paragraphs content0
      in case chunk_loop ck doc paragraphs
                \<lparr>chunks = [], current_chunk_parts = [], current_chunk_size = 0, chunk_idx = 0\<rparr> of
           None \<Rightarrow> None
         | Some st \<Rightarrow>
             Some (map (enforce_max ck)
                     (if current_chunk_parts st \<noteq> []
                      then chunks (emit ck doc paragraph_type st) else chunks st)))"

subsection \<open>A small document\<close>

text \<open>A string that is empty or starts with a character that is not white space.\<close>

definition clean :: "pystr \<Rightarrow> bool" where
  "clean s = (s = [] \<or> \<not> is_space (hd s))"

text \<open>A small configuration and a document of three paragraphs of 11, 20 and 11 characters; the second is longer than \<open>absolute_max\<close> and is cut into 15 and 5 characters.\<close>

definition small_chunker :: chunker where
  "small_chunker = \<lparr>chunk_size_target = 12, chunk_size_max = 14, overlap = 3, absolute_max = 15\<rparr>"

definition pa :: pystr where "pa = [97, 97, 97, 97, 97, 97, 97, 97, 97, 97, 97]"
definition pb :: pystr where "pb = [98, 98, 98, 98, 98, 98, 98, 98, 98, 98, 98, 98, 98, 98, 98, 98, 98, 98, 98, 98]"
definition pc :: pystr where "pc = [99, 99, 99, 99, 99, 99, 99, 99, 99, 99, 99]"

definition three_paragraphs :: pystr where
  "three_paragraphs = pa @ [10, 10] @ pb @ [10, 10] @ pc"

definition pb15 :: pystr where
  "pb15 = [98, 98, 98, 98, 98, 98, 98, 98, 98, 98, 98, 98, 98, 98, 98]"

definition pb5 :: pystr where
  "pb5 = [98, 98, 98, 98, 98]"

definition small_doc :: document where
  "small_doc = \<lparr>d_doc_id = [100], d_title = [116], d_timestamp = [], d_industries = [],
     d_investment_relevance = [], d_report_series = [], d_industry_policy_segments = []\<rparr>"

section \<open>Scored candidates\<close>

text \<open>
  A candidate is a Python dict. Each key the repository reads or writes is a field; \<open>None\<close>
  stands for a key that is absent, so \<open>d.get(k, default)\<close> is a case distinction on the
  field. The value of \<open>timestamp\<close> is a string, a \<open>datetime\<close> object or something else
  (the three \<open>isinstance\<close> branches of the consolidator).
\<close>

record datetime =
  toordinal :: int
  time_of_day :: nat

datatype ts_value = TsStr pystr | TsDatetime datetime | TsNone

text \<open>
  A consolidated document result of \<open>merge_chunks_by_doc_id\<close>: a dict with eleven keys that
  are always present. \<open>'c\<close> is the type of its member candidates.
\<close>

record 'c merged_doc =
  doc_id :: pystr
  title :: pystr
  timestamp :: ts_value
  industries :: pystr
  investment_relevance :: pystr
  report_series :: pystr
  content :: pystr
  chunk_count :: nat
  avg_similarity :: real
  similarity :: real
  chunks :: "'c list"

record candidate =
  chunk_id :: "pystr option"
  doc_id :: "pystr option"
  content :: "pystr option"
  chunk_index :: "int option"
  chunk_type :: "pystr option"
  title :: "pystr option"
  timestamp :: "ts_value option"
  industries :: "pystr option"
  investment_relevance :: "pystr option"
  report_series :: "pystr option"
  industry_policy_segments :: "pystr option"
  source :: "pystr option"
  similarity :: "real option"
  matched_by_query_chunk :: "nat option"
  rerank_score :: "real option"
  original_rank :: "int option"
  time_bonus :: "real option"
  final_score :: "real option"

text \<open>
  The dicts are shared, mutable objects: a list of candidates is a list of references into
  a store, and a function that assigns to a key returns the updated store.
\<close>

type_synonym ref = nat
type_synonym heap = "ref \<Rightarrow> candidate"

section \<open>Deduplication and time weighting (Agent/agents/novelty\_agent.py)\<close>

definition get_title :: "candidate \<Rightarrow> pystr" where
  "get_title c = (case title c of None \<Rightarrow> [] | Some t \<Rightarrow> t)"

definition get_timestamp :: "candidate \<Rightarrow> ts_value" where
  "get_timestamp c = (case timestamp c of None \<Rightarrow> TsStr [] | Some t \<Rightarrow> t)"

definition dedup_key :: "candidate \<Rightarrow> pystr \<times> ts_value" where
  "dedup_key c = (get_title c, get_timestamp c)"

text \<open>\<open>chunk.get('rerank_score', 0.0)\<close>\<close>

definition get_rerank_score :: "candidate \<Rightarrow> real" where
  "get_rerank_score c = (case rerank_score c of None \<Rightarrow> 0 | Some s \<Rightarrow> s)"

text \<open>
  The first loop: \<open>seen\<close> is a dict from key to candidate. A dict keeps its keys in the
  order of their first insertion and an assignment to an existing key replaces the value
  in place, which is what \<^const>\<open>AList.update\<close> does on an association list.
\<close>

definition seen_step :: "heap \<Rightarrow> ((pystr \<times> ts_value) \<times> ref) list \<Rightarrow> ref \<Rightarrow> ((pystr \<times> ts_value) \<times> ref) list" where
  "seen_step h seen r =
     (let key = dedup_key (h r); rerank = get_rerank_score (h r) in
      case map_of seen key of
        None \<Rightarrow> AList.update key r seen
      | Some r0 \<Rightarrow> if rerank > get_rerank_score (h r0) then AList.update key r seen else seen)"

fun dedup_seen :: "heap \<Rightarrow> ref list \<Rightarrow> ((pystr \<times> ts_value) \<times> ref) list \<Rightarrow> ((pystr \<times> ts_value) \<times> ref) list" where
  "dedup_seen h [] seen = seen"
| "dedup_seen h (r # rs) seen = dedup_seen h rs (seen_step h seen r)"

text \<open>
  The body of the \<open>try\<close>. \<open>datetime.fromisoformat\<close> belongs to the Python library and is a
  parameter: it returns the parsed value, or \<open>None\<close> where it raises. The bare \<open>except\<close>
  leaves the bonus at 0.0, as does a value that is neither a string nor a \<open>datetime\<close>.
\<close>

definition replace_Z :: "pystr \<Rightarrow> pystr" where
  "replace_Z s = concat (map (\<lambda>c. if c = 90 then [43, 48, 48, 58, 48, 48] else [c]) s)"

definition parse_timestamp :: "(pystr \<Rightarrow> datetime option) \<Rightarrow> ts_value \<Rightarrow> datetime option" where
  "parse_timestamp fromisoformat ts =
     (case ts of
        TsStr s \<Rightarrow> if 84 \<in> set s then fromisoformat (replace_Z s) else fromisoformat s
      | TsDatetime d \<Rightarrow> Some d
      | TsNone \<Rightarrow> None)"

definition truthy :: "ts_value \<Rightarrow> bool" where
  "truthy ts = (case ts of TsStr s \<Rightarrow> s \<noteq> [] | TsDatetime d \<Rightarrow> True | TsNone \<Rightarrow> False)"

definition tier_bonus :: "int \<Rightarrow> real" where
  "tier_bonus days_diff =
     (if days_diff \<le> 365 then 0.1 * (1 - real_of_int days_diff / 365)
      else if days_diff \<le> 1095 then 0.03 * (1 - (real_of_int days_diff - 365) / 730)
      else 0.0)"

definition compute_time_bonus :: "(pystr \<Rightarrow> datetime option) \<Rightarrow> datetime option \<Rightarrow> ts_value \<Rightarrow> real" where
  "compute_time_bonus fromisoformat policy_timestamp ts =
     (case policy_timestamp of
        None \<Rightarrow> 0.0
      | Some policy_dt \<Rightarrow>
          if truthy ts then
            (case parse_timestamp fromisoformat ts of
               None \<Rightarrow> 0.0
             | Some doc_dt \<Rightarrow> tier_bonus (toordinal policy_dt - toordinal doc_dt))
          else 0.0)"

text \<open>The two assignments at the end of the second loop's body.\<close>

definition weigh :: "(pystr \<Rightarrow> datetime option) \<Rightarrow> datetime option \<Rightarrow> candidate \<Rightarrow> candidate" where
  "weigh fromisoformat policy_timestamp c =
     (let tb = compute_time_bonus fromisoformat policy_timestamp (get_timestamp c) in
      c\<lparr>time_bonus := Some tb, final_score := Some (get_rerank_score c + tb)\<rparr>)"

fun weigh_all :: "(pystr \<Rightarrow> datetime option) \<Rightarrow> datetime option \<Rightarrow> heap \<Rightarrow> ref list \<Rightarrow> heap" where
  "weigh_all fromisoformat policy_timestamp h [] = h"
| "weigh_all fromisoformat policy_timestamp h (r # rs) =
     weigh_all fromisoformat policy_timestamp (h(r := weigh fromisoformat policy_timestamp (h r))) rs"

definition get_final_score :: "candidate \<Rightarrow> real" where
  "get_final_score c = (case final_score c of None \<Rightarrow> 0 | Some s \<Rightarrow> s)"

text \<open>
  \<open>list.sort(key=..., reverse=True)\<close> is stable: candidates with equal keys keep their
  order. That is the stable ascending sort on the negated key.
\<close>

definition sort_desc :: "('a \<Rightarrow> real) \<Rightarrow> 'a list \<Rightarrow> 'a list" where
  "sort_desc f xs = sort_key (\<lambda>x. - f x) xs"

text \<open>
  \<open>_deduplicate_chunks\<close>: the store after the call and the returned list. The caller's
  list object is only read.
\<close>

definition deduplicate_chunks ::
  "(pystr \<Rightarrow> datetime option) \<Rightarrow> heap \<Rightarrow> ref list \<Rightarrow> datetime option \<Rightarrow> int \<Rightarrow> heap \<times> ref list" where
  "deduplicate_chunks fromisoformat h chunk_results policy_timestamp top_k =
     (let seen = dedup_seen h chunk_results [];
          results = map snd seen;
          h' = weigh_all fromisoformat policy_timestamp h results;
          sorted = sort_desc (\<lambda>r. get_final_score (h' r)) results
      in (h', py_prefix top_k sorted))"


text \<open>
  The invariant of the first loop: the keys of \<open>seen\<close> are distinct and each entry is
  stored under its own key.
\<close>

definition seen_ok :: "heap \<Rightarrow> ((pystr \<times> ts_value) \<times> ref) list \<Rightarrow> bool" where
  "seen_ok h seen = (distinct (map fst seen) \<and> list_all (\<lambda>(k, r). dedup_key (h r) = k) seen)"

subsection \<open>Concrete candidates\<close>

text \<open>The empty dict, a parser that rejects every string, and a \<open>datetime\<close> at midnight.\<close>

definition empty_dict :: candidate where
  "empty_dict = \<lparr>chunk_id = None, doc_id = None, content = None, chunk_index = None,
     chunk_type = None, title = None, timestamp = None, industries = None,
     investment_relevance = None, report_series = None, industry_policy_segments = None,
     source = None, similarity = None, matched_by_query_chunk = None, rerank_score = None,
     original_rank = None, time_bonus = None, final_score = None\<rparr>"

definition no_parse :: "pystr \<Rightarrow> datetime option" where
  "no_parse s = None"

definition day :: "int \<Rightarrow> datetime" where
  "day n = \<lparr>toordinal = n, time_of_day = 0\<rparr>"


text \<open>
  Two candidates with rerank score 1, dated 365 days (reference 0) and 366 days
  (reference 1) before day 1000.
\<close>

definition tier_boundary :: heap where
  "tier_boundary r =
     (if r = 0 then empty_dict\<lparr>title := Some [97], timestamp := Some (TsDatetime (day 635)),
                      rerank_score := Some 1\<rparr>
      else empty_dict\<lparr>title := Some [98], timestamp := Some (TsDatetime (day 634)),
                      rerank_score := Some 1\<rparr>)"

text \<open>
  Two candidates with rerank score 1, dated 30 days (reference 0) and 400 days
  (reference 1) before day 1000.
\<close>

definition recent_and_old :: heap where
  "recent_and_old r =
     (if r = 0 then empty_dict\<lparr>title := Some [97], timestamp := Some (TsDatetime (day 970)),
                      rerank_score := Some 1\<rparr>
      else empty_dict\<lparr>title := Some [98], timestamp := Some (TsDatetime (day 600)),
                      rerank_score := Some 1\<rparr>)"

text \<open>Candidates that differ in their titles only.\<close>

definition titled :: heap where
  "titled r = empty_dict\<lparr>title := Some [r]\<rparr>"

section \<open>Reranking (utils/reranker.py)\<close>

text \<open>\<open>r.get('content', '')\<close>\<close>

definition get_content :: "candidate \<Rightarrow> pystr" where
  "get_content c = (case content c of None \<Rightarrow> [] | Some t \<Rightarrow> t)"

text \<open>The loop of the disabled reranker: both keys are assigned on every candidate.\<close>

fun set_disabled :: "heap \<Rightarrow> nat \<Rightarrow> ref list \<Rightarrow> heap" where
  "set_disabled h i [] = h"
| "set_disabled h i (r # rs) =
     set_disabled (h(r := (h r)\<lparr>rerank_score := Some 0.0, original_rank := Some (int i + 1)\<rparr>)) (i + 1) rs"

text \<open>
  The loop inside the \<open>try\<close>: \<open>scores[i]\<close> raises once \<open>i\<close> reaches the number of scores.
  The result is the store at that moment and whether the loop ran to its end.
\<close>

fun assign_scores :: "heap \<Rightarrow> real list \<Rightarrow> nat \<Rightarrow> ref list \<Rightarrow> heap \<times> bool" where
  "assign_scores h scores i [] = (h, True)"
| "assign_scores h scores i (r # rs) =
     (if i < length scores
      then assign_scores
             (h(r := (h r)\<lparr>rerank_score := Some (scores ! i), original_rank := Some (int i + 1)\<rparr>))
             scores (i + 1) rs
      else (h, False))"

text \<open>The loop of the \<open>except\<close> branch: a key is assigned only where it is absent.\<close>

definition fill_default :: "nat \<Rightarrow> candidate \<Rightarrow> candidate" where
  "fill_default i c =
     (let c1 = (if rerank_score c = None then c\<lparr>rerank_score := Some 0.0\<rparr> else c)
      in if original_rank c1 = None then c1\<lparr>original_rank := Some (int i + 1)\<rparr> else c1)"

fun fill_defaults :: "heap \<Rightarrow> nat \<Rightarrow> ref list \<Rightarrow> heap" where
  "fill_defaults h i [] = h"
| "fill_defaults h i (r # rs) = fill_defaults (h(r := fill_default i (h r))) (i + 1) rs"

text \<open>
  \<open>BCEReranker.rerank\<close>. The cross-encoder is a parameter: \<open>predict\<close> returns the scores
  of the pairs, or \<open>None\<close> where it raises. The result is the store after the call, the
  caller's list object after the call (\<open>results.sort\<close> sorts it in place) and the returned
  list. After the assignment loop every candidate of the list has a rerank score, so the
  sort key \<open>x['rerank_score']\<close> is read with \<^const>\<open>get_rerank_score\<close>.
\<close>

definition rerank ::
  "bool \<Rightarrow> ((pystr \<times> pystr) list \<Rightarrow> real list option) \<Rightarrow> heap \<Rightarrow> pystr \<Rightarrow> ref list \<Rightarrow> int \<Rightarrow> int \<Rightarrow> int
     \<Rightarrow> heap \<times> ref list \<times> ref list" where
  "rerank enabled predict h query results top_k query_max_length passage_max_length =
     (if \<not> enabled then (set_disabled h 0 results, results, py_prefix top_k results)
      else if results = [] then (h, results, [])
      else
        let query' = py_prefix query_max_length query;
            pairs = map (\<lambda>r. (query', py_prefix passage_max_length (get_content (h r)))) results
        in case predict pairs of
             None \<Rightarrow> (fill_defaults h 0 results, results, py_prefix top_k results)
           | Some scores \<Rightarrow>
               (case assign_scores h scores 0 results of
                  (h1, True) \<Rightarrow>
                    let sorted = sort_desc (\<lambda>r. get_rerank_score (h1 r)) results
                    in (h1, sorted, py_prefix top_k sorted)
                | (h1, False) \<Rightarrow> (fill_defaults h1 0 results, results, py_prefix top_k results)))"


section \<open>Multi-query search (Agent/vector\_db.py)\<close>

text \<open>
  A hit of the passage store: its L2 distance and the stored fields of its entity, read
  with \<open>hit.entity.get(key)\<close>.
\<close>

record hit =
  distance :: real
  entity :: candidate











section \<open>Merging by document (agents/enhanced\_rag\_agent.py)\<close>
















subsection \<open>What the merge loop maintains\<close>

text \<open>
  The hits of all fragments in the order in which the loops visit them, each with the
  index of its fragment; those that are not skipped for their document id; a merged result
  that carries, for its chunk id, the highest similarity among a list of hits and the
  index of a hit that has it; and the invariant of the loops.
\<close>

fun tagged_hits :: "(pystr \<Rightarrow> int \<Rightarrow> hit list list) \<Rightarrow> int \<Rightarrow> nat \<Rightarrow> pystr list \<Rightarrow> (nat \<times> hit) list" where
  "tagged_hits search k i [] = []"
| "tagged_hits search k i (q # qs) = map (Pair i) (concat (search q k)) @ tagged_hits search k (i + 1) qs"






subsection \<open>What the merge maintains\<close>












section \<open>Properties of deduplication\<close>

lemma dedup_key_weigh: "dedup_key (weigh F p c) = dedup_key c"
  by (simp add: weigh_def dedup_key_def get_title_def get_timestamp_def Let_def)

lemma get_timestamp_weigh: "get_timestamp (weigh F p c) = get_timestamp c"
  by (simp add: weigh_def get_timestamp_def Let_def)

lemma get_rerank_score_weigh: "get_rerank_score (weigh F p c) = get_rerank_score c"
  by (simp add: weigh_def get_rerank_score_def Let_def)

lemma weigh_idem: "weigh F p (weigh F p c) = weigh F p c"
  by (simp add: weigh_def get_rerank_score_def get_timestamp_def Let_def)

lemma weigh_all_eq:
  "weigh_all F p h rs = (\<lambda>r. if r \<in> set rs then weigh F p (h r) else h r)"
proof (induction rs arbitrary: h)
  case Nil
  show ?case by simp
next
  case (Cons a rs)
  show ?case
    by (simp add: Cons.IH fun_eq_iff weigh_idem)
qed


lemma list_all_update:
  "list_all P al \<Longrightarrow> P (k, v) \<Longrightarrow> list_all P (AList.update k v al)"
  by (induction al) auto

lemma seen_ok_step: "seen_ok h seen \<Longrightarrow> seen_ok h (seen_step h seen r)"
  by (auto simp: seen_ok_def seen_step_def Let_def distinct_update list_all_update split: option.splits)

lemma seen_ok_dedup_seen: "seen_ok h seen \<Longrightarrow> seen_ok h (dedup_seen h rs seen)"
  by (induction rs arbitrary: seen) (auto simp: seen_ok_step)









lemma update_fresh: "k \<notin> fst ` set al \<Longrightarrow> AList.update k v al = al @ [(k, v)]"
  by (induction al) auto

lemma dedup_seen_distinct_keys:
  assumes "distinct (map (\<lambda>r. dedup_key (h r)) xs)"
    and "\<forall>r\<in>set xs. dedup_key (h r) \<notin> fst ` set seen"
  shows "dedup_seen h xs seen = seen @ map (\<lambda>r. (dedup_key (h r), r)) xs"
  using assms
proof (induction xs arbitrary: seen)
  case Nil
  then show ?case by simp
next
  case (Cons a xs)
  have fresh: "dedup_key (h a) \<notin> fst ` set seen" using Cons.prems(2) by simp
  then have none: "map_of seen (dedup_key (h a)) = None"
    by (simp add: map_of_eq_None_iff)
  have step: "seen_step h seen a = seen @ [(dedup_key (h a), a)]"
    by (simp add: seen_step_def Let_def none update_fresh [OF fresh])
  have d: "distinct (map (\<lambda>r. dedup_key (h r)) xs)" using Cons.prems(1) by simp
  have f: "\<forall>r\<in>set xs. dedup_key (h r) \<notin> fst ` set (seen @ [(dedup_key (h a), a)])"
    using Cons.prems by (auto simp: image_iff)
  show ?case using Cons.IH [OF d f] by (simp add: step)
qed

lemma seen_keys: "seen_ok h seen \<Longrightarrow> map fst seen = map (\<lambda>r. dedup_key (h r)) (map snd seen)"
  by (induction seen) (auto simp: seen_ok_def)

lemma dedup_seen_keys_distinct:
  "distinct (map (\<lambda>r. dedup_key (h r)) (map snd (dedup_seen h rs [])))"
proof -
  have ok: "seen_ok h (dedup_seen h rs [])"
    by (rule seen_ok_dedup_seen) (simp add: seen_ok_def)
  then have "distinct (map fst (dedup_seen h rs []))" by (simp add: seen_ok_def)
  then show ?thesis using seen_keys [OF ok] by simp
qed

lemma distinct_map_sort_key: "distinct (map f xs) \<Longrightarrow> distinct (map f (sort_key g xs))"
  by (simp add: distinct_map)

lemma distinct_map_take: "distinct (map f xs) \<Longrightarrow> distinct (map f (take n xs))"
  by (simp add: take_map [symmetric] distinct_take del: take_map)

lemma py_prefix_nonneg: "0 \<le> n \<Longrightarrow> py_prefix n xs = take (nat n) xs"
  by (simp add: py_prefix_def)

lemma set_py_prefix: "set (py_prefix n xs) \<subseteq> set xs"
  by (auto simp: py_prefix_def dest: in_set_takeD)

lemma sorted_sort_desc: "sorted (map (\<lambda>x. - f x) (sort_desc f xs))"
  by (simp add: sort_desc_def)

lemma sort_desc_take_id: "sort_desc f (take n (sort_desc f xs)) = take n (sort_desc f xs)"
proof -
  have "sorted (map (\<lambda>x. - f x) (take n (sort_desc f xs)))"
    using sorted_sort_desc [of f xs] by (simp add: take_map [symmetric] sorted_wrt_take del: take_map)
  then show ?thesis unfolding sort_desc_def by (rule sort_key_id_if_sorted)
qed







lemma returned_subset:
  "set (snd (deduplicate_chunks F h rs p k)) \<subseteq> set (map snd (dedup_seen h rs []))"
  using set_py_prefix by (fastforce simp: deduplicate_chunks_def Let_def sort_desc_def)

lemma returned_weighed:
  assumes "r \<in> set (snd (deduplicate_chunks F h rs p k))"
  shows "fst (deduplicate_chunks F h rs p k) r = weigh F p (h r)"
  using assms returned_subset [of F h rs p k]
  by (auto simp: deduplicate_chunks_def Let_def weigh_all_eq)

lemma time_bonus_weigh:
  "time_bonus (weigh F p c) = Some (compute_time_bonus F p (get_timestamp c))"
  by (simp add: weigh_def Let_def)

lemma final_score_weigh:
  "final_score (weigh F p c) = Some (get_rerank_score c + compute_time_bonus F p (get_timestamp c))"
  by (simp add: weigh_def Let_def)

lemma tier_bonus_nonneg: "0 \<le> d \<Longrightarrow> 0 \<le> tier_bonus d"
  by (simp add: tier_bonus_def field_simps)

lemma tier_bonus_le_first: "d \<le> 255 \<Longrightarrow> 0.03 \<le> tier_bonus d"
  by (simp add: tier_bonus_def field_simps)

lemma tier_bonus_second_le: "365 < d \<Longrightarrow> tier_bonus d \<le> 0.03"
  by (simp add: tier_bonus_def field_simps)

lemma tier_bonus_mono:
  assumes "0 \<le> da" and "da \<le> db" and "db \<le> 365 \<or> 365 < da \<or> da \<le> 255"
  shows "tier_bonus db \<le> tier_bonus da"
proof (cases "db \<le> 365")
  case True
  with assms show ?thesis by (simp add: tier_bonus_def field_simps)
next
  case False
  show ?thesis
  proof (cases "365 < da")
    case True
    with assms False show ?thesis by (auto simp: tier_bonus_def field_simps)
  next
    case False
    with assms \<open>\<not> db \<le> 365\<close> have "da \<le> 255" and "365 < db" by auto
    from tier_bonus_le_first [OF this(1)] tier_bonus_second_le [OF this(2)]
    show ?thesis by simp
  qed
qed

section \<open>Time bonus\<close>

text \<open>
  C2: a candidate returned by \<open>_deduplicate_chunks\<close> whose timestamp parses carries, for
  \<open>days_diff\<close> the day difference between the reference date and its own date, the bonus
  \<open>0.1 * (1 - days_diff/365)\<close> if \<open>days_diff \<le> 365\<close>, \<open>0.03 * (1 - (days_diff - 365)/730)\<close>
  if \<open>365 < days_diff \<le> 1095\<close>, and 0 beyond; a candidate whose timestamp is missing or
  does not parse carries the bonus 0.
\<close>

theorem C2_time_bonus_tiers:
  assumes "r \<in> set (snd (deduplicate_chunks fromisoformat h chunk_results policy_timestamp top_k))"
  shows "(\<forall>policy_dt doc_dt.
            policy_timestamp = Some policy_dt \<and> truthy (get_timestamp (h r)) \<and>
            parse_timestamp fromisoformat (get_timestamp (h r)) = Some doc_dt \<longrightarrow>
            time_bonus (fst (deduplicate_chunks fromisoformat h chunk_results policy_timestamp top_k) r) =
              Some (let days_diff = toordinal policy_dt - toordinal doc_dt in
                    if days_diff \<le> 365 then 0.1 * (1 - real_of_int days_diff / 365)
                    else if days_diff \<le> 1095 then 0.03 * (1 - (real_of_int days_diff - 365) / 730)
                    else 0))
       \<and> (timestamp (h r) = None \<or> parse_timestamp fromisoformat (get_timestamp (h r)) = None \<longrightarrow>
            time_bonus (fst (deduplicate_chunks fromisoformat h chunk_results policy_timestamp top_k) r) = Some 0)"
proof -
  have tb: "time_bonus (fst (deduplicate_chunks fromisoformat h chunk_results policy_timestamp top_k) r) =
      Some (compute_time_bonus fromisoformat policy_timestamp (get_timestamp (h r)))"
    by (simp add: returned_weighed [OF assms] time_bonus_weigh)
  have missing: "timestamp (h r) = None \<Longrightarrow> \<not> truthy (get_timestamp (h r))"
    by (simp add: get_timestamp_def truthy_def)
  show ?thesis
    unfolding tb using missing
    by (auto simp: compute_time_bonus_def tier_bonus_def Let_def split: option.splits)
qed

theorem C2_time_bonus_tiers_witness:
  "time_bonus (fst (deduplicate_chunks no_parse recent_and_old [0, 1] (Some (day 1000)) 10) 0) =
     Some (0.1 * (1 - 30 / 365))
   \<and> time_bonus (fst (deduplicate_chunks no_parse recent_and_old [0, 1] (Some (day 1000)) 10) 1) =
     Some (0.03 * (1 - (400 - 365) / 730))
   \<and> time_bonus (fst (deduplicate_chunks no_parse titled [0] (Some (day 1000)) 10) 0) = Some 0"
proof -
  have out: "snd (deduplicate_chunks no_parse recent_and_old [0, 1] (Some (day 1000)) 10) = [0, 1]"
    by (simp add: deduplicate_chunks_def Let_def seen_step_def dedup_key_def get_title_def
        get_timestamp_def get_rerank_score_def recent_and_old_def empty_dict_def weigh_def day_def
        compute_time_bonus_def sort_desc_def py_prefix_def get_final_score_def truthy_def
        parse_timestamp_def tier_bonus_def)
  have out': "snd (deduplicate_chunks no_parse titled [0] (Some (day 1000)) 10) = [0]"
    by (simp add: deduplicate_chunks_def Let_def seen_step_def sort_desc_def py_prefix_def)
  have m0: "0 \<in> set (snd (deduplicate_chunks no_parse recent_and_old [0, 1] (Some (day 1000)) 10))"
    and m1: "1 \<in> set (snd (deduplicate_chunks no_parse recent_and_old [0, 1] (Some (day 1000)) 10))"
    unfolding out by simp_all
  have m2: "0 \<in> set (snd (deduplicate_chunks no_parse titled [0] (Some (day 1000)) 10))"
    unfolding out' by simp
  have p0: "truthy (get_timestamp (recent_and_old 0)) \<and>
      parse_timestamp no_parse (get_timestamp (recent_and_old 0)) = Some (day 970)"
    by (simp add: recent_and_old_def empty_dict_def get_timestamp_def truthy_def parse_timestamp_def)
  have p1: "truthy (get_timestamp (recent_and_old 1)) \<and>
      parse_timestamp no_parse (get_timestamp (recent_and_old 1)) = Some (day 600)"
    by (simp add: recent_and_old_def empty_dict_def get_timestamp_def truthy_def parse_timestamp_def)
  have p2: "timestamp (titled 0) = None"
    by (simp add: titled_def empty_dict_def)
  from C2_time_bonus_tiers [OF m0] p0
  have a: "time_bonus (fst (deduplicate_chunks no_parse recent_and_old [0, 1] (Some (day 1000)) 10) 0) =
     Some (0.1 * (1 - 30 / 365))"
    by (simp add: day_def)
  from C2_time_bonus_tiers [OF m1] p1
  have b: "time_bonus (fst (deduplicate_chunks no_parse recent_and_old [0, 1] (Some (day 1000)) 10) 1) =
     Some (0.03 * (1 - (400 - 365) / 730))"
    by (simp add: day_def)
  from C2_time_bonus_tiers [OF m2] p2
  have c: "time_bonus (fst (deduplicate_chunks no_parse titled [0] (Some (day 1000)) 10) 0) = Some 0"
    by simp
  from a b c show ?thesis by simp
qed

section \<open>Kept candidate and final score\<close>




section \<open>Monotonicity of the time bonus\<close>

text \<open>
  C4, as stated: of two candidates with the same base score the one closer to the
  reference date never has the smaller final score, also across the 365-day boundary. Not
  so: with rerank score 1 each, the candidate 365 days back gets the bonus 0 and the final
  score 1, the candidate 366 days back gets the bonus 0.03 * (1 - 1/730) and the final
  score 1 + 2187/73000, and is ranked first.
\<close>

theorem C4_counterexample:
  "snd (deduplicate_chunks no_parse tier_boundary [0, 1] (Some (day 1000)) 10) = [1, 0]
   \<and> get_rerank_score (tier_boundary 0) = get_rerank_score (tier_boundary 1)
   \<and> toordinal (day 1000) - toordinal (day 635) = 365
   \<and> toordinal (day 1000) - toordinal (day 634) = 366
   \<and> final_score (fst (deduplicate_chunks no_parse tier_boundary [0, 1] (Some (day 1000)) 10) 0) = Some 1
   \<and> final_score (fst (deduplicate_chunks no_parse tier_boundary [0, 1] (Some (day 1000)) 10) 1) =
       Some (1 + 2187 / 73000)
   \<and> (1 :: real) < 1 + 2187 / 73000"
  by (simp add: deduplicate_chunks_def Let_def seen_step_def dedup_key_def get_title_def
      get_timestamp_def get_rerank_score_def tier_boundary_def empty_dict_def weigh_def day_def
      compute_time_bonus_def sort_desc_def py_prefix_def get_final_score_def truthy_def
      parse_timestamp_def tier_bonus_def)

text \<open>
  C4, amended: let two returned candidates have the same rerank score (absent read as 0.0)
  and timestamps that parse, \<open>days_a\<close> and \<open>days_b\<close> days before the reference date with
  \<open>0 \<le> days_a \<le> days_b\<close>. If both lie in the same tier (\<open>days_b \<le> 365\<close>, or
  \<open>365 < days_a\<close>), or the closer one is at most 255 days back, then the closer candidate's
  final score is at least the other's.
\<close>

theorem C4_closer_candidate_not_ranked_lower:
  assumes "a \<in> set (snd (deduplicate_chunks fromisoformat h chunk_results (Some policy_dt) top_k))"
    and "b \<in> set (snd (deduplicate_chunks fromisoformat h chunk_results (Some policy_dt) top_k))"
    and "get_rerank_score (h a) = get_rerank_score (h b)"
    and "truthy (get_timestamp (h a))" and "truthy (get_timestamp (h b))"
    and "parse_timestamp fromisoformat (get_timestamp (h a)) = Some dt_a"
    and "parse_timestamp fromisoformat (get_timestamp (h b)) = Some dt_b"
    and "0 \<le> toordinal policy_dt - toordinal dt_a"
    and "toordinal policy_dt - toordinal dt_a \<le> toordinal policy_dt - toordinal dt_b"
    and "toordinal policy_dt - toordinal dt_b \<le> 365 \<or> 365 < toordinal policy_dt - toordinal dt_a
         \<or> toordinal policy_dt - toordinal dt_a \<le> 255"
  shows "get_final_score (fst (deduplicate_chunks fromisoformat h chunk_results (Some policy_dt) top_k) b)
       \<le> get_final_score (fst (deduplicate_chunks fromisoformat h chunk_results (Some policy_dt) top_k) a)"
proof -
  have fa: "get_final_score (fst (deduplicate_chunks fromisoformat h chunk_results (Some policy_dt) top_k) a)
      = get_rerank_score (h a) + tier_bonus (toordinal policy_dt - toordinal dt_a)"
    using assms(4,6)
    by (simp add: returned_weighed [OF assms(1)] get_final_score_def final_score_weigh
        compute_time_bonus_def)
  have fb: "get_final_score (fst (deduplicate_chunks fromisoformat h chunk_results (Some policy_dt) top_k) b)
      = get_rerank_score (h b) + tier_bonus (toordinal policy_dt - toordinal dt_b)"
    using assms(5,7)
    by (simp add: returned_weighed [OF assms(2)] get_final_score_def final_score_weigh
        compute_time_bonus_def)
  from tier_bonus_mono [OF assms(8,9,10)] show ?thesis
    by (simp add: fa fb assms(3))
qed

theorem C4_closer_candidate_not_ranked_lower_witness:
  "get_final_score (fst (deduplicate_chunks no_parse recent_and_old [0, 1] (Some (day 1000)) 10) 1)
     \<le> get_final_score (fst (deduplicate_chunks no_parse recent_and_old [0, 1] (Some (day 1000)) 10) 0)
   \<and> snd (deduplicate_chunks no_parse recent_and_old [0, 1] (Some (day 1000)) 10) = [0, 1]"
proof -
  have out: "snd (deduplicate_chunks no_parse recent_and_old [0, 1] (Some (day 1000)) 10) = [0, 1]"
    by (simp add: deduplicate_chunks_def Let_def seen_step_def dedup_key_def get_title_def
        get_timestamp_def get_rerank_score_def recent_and_old_def empty_dict_def weigh_def day_def
        compute_time_bonus_def sort_desc_def py_prefix_def get_final_score_def truthy_def
        parse_timestamp_def tier_bonus_def)
  have m0: "0 \<in> set (snd (deduplicate_chunks no_parse recent_and_old [0, 1] (Some (day 1000)) 10))"
    and m1: "1 \<in> set (snd (deduplicate_chunks no_parse recent_and_old [0, 1] (Some (day 1000)) 10))"
    unfolding out by simp_all
  have s: "get_rerank_score (recent_and_old 0) = get_rerank_score (recent_and_old 1)"
    by (simp add: recent_and_old_def empty_dict_def get_rerank_score_def)
  have t0: "truthy (get_timestamp (recent_and_old 0))" and t1: "truthy (get_timestamp (recent_and_old 1))"
    by (simp_all add: recent_and_old_def empty_dict_def get_timestamp_def truthy_def)
  have p0: "parse_timestamp no_parse (get_timestamp (recent_and_old 0)) = Some (day 970)"
    and p1: "parse_timestamp no_parse (get_timestamp (recent_and_old 1)) = Some (day 600)"
    by (simp_all add: recent_and_old_def empty_dict_def get_timestamp_def parse_timestamp_def)
  have d0: "0 \<le> toordinal (day 1000) - toordinal (day 970)"
    and d1: "toordinal (day 1000) - toordinal (day 970) \<le> toordinal (day 1000) - toordinal (day 600)"
    and d2: "toordinal (day 1000) - toordinal (day 600) \<le> 365 \<or> 365 < toordinal (day 1000) - toordinal (day 970)
         \<or> toordinal (day 1000) - toordinal (day 970) \<le> 255"
    by (simp_all add: day_def)
  from C4_closer_candidate_not_ranked_lower [OF m0 m1 s t0 t1 p0 p1 d0 d1 d2] out
  show ?thesis by simp
qed

section \<open>Idempotence of deduplication\<close>

text \<open>
  C5, as stated: for every \<open>top_k\<close> a second run on the first run's output returns the same
  sequence. Not so for a negative \<open>top_k\<close>, where \<open>results[:top_k]\<close> drops candidates from
  the end at every run: with three candidates of different titles and \<open>top_k = -1\<close> the
  first run returns two of them and the second run, on these two, returns one.
\<close>

theorem C5_counterexample:
  "snd (deduplicate_chunks no_parse titled [0, 1, 2] None (- 1)) = [0, 1]
   \<and> snd (deduplicate_chunks no_parse
            (fst (deduplicate_chunks no_parse titled [0, 1, 2] None (- 1)))
            (snd (deduplicate_chunks no_parse titled [0, 1, 2] None (- 1))) None (- 1)) = [0]"
proof -
  have first: "snd (deduplicate_chunks no_parse titled [0, 1, 2] None (- 1)) = [0, 1]"
    by (simp add: deduplicate_chunks_def Let_def seen_step_def dedup_key_def get_title_def
        get_timestamp_def get_rerank_score_def titled_def empty_dict_def weigh_def
        compute_time_bonus_def sort_desc_def py_prefix_def get_final_score_def)
  have second: "snd (deduplicate_chunks no_parse
            (fst (deduplicate_chunks no_parse titled [0, 1, 2] None (- 1))) [0, 1] None (- 1)) = [0]"
    by (simp add: deduplicate_chunks_def Let_def seen_step_def dedup_key_def get_title_def
        get_timestamp_def get_rerank_score_def titled_def empty_dict_def weigh_def
        compute_time_bonus_def sort_desc_def py_prefix_def get_final_score_def)
  show ?thesis unfolding first using first second by simp
qed

text \<open>
  C5, amended: for every candidate list, reference timestamp and \<open>top_k \<ge> 0\<close>, running
  \<open>_deduplicate_chunks\<close> on its own output (with the store it left) returns the same
  sequence of candidates in the same order and leaves every candidate as it was.
\<close>

theorem C5_dedup_idempotent_nonnegative_top_k:
  assumes k: "0 \<le> top_k"
  shows "deduplicate_chunks F (fst (deduplicate_chunks F h rs p top_k))
           (snd (deduplicate_chunks F h rs p top_k)) p top_k
         = deduplicate_chunks F h rs p top_k"
proof -
  define vals where "vals = map snd (dedup_seen h rs [])"
  define h1 where "h1 = weigh_all F p h vals"
  define out where "out = take (nat top_k) (sort_desc (\<lambda>r. get_final_score (h1 r)) vals)"
  have first: "deduplicate_chunks F h rs p top_k = (h1, out)"
    by (simp add: deduplicate_chunks_def Let_def vals_def h1_def out_def py_prefix_nonneg [OF k])
  have h1_eq: "h1 = (\<lambda>r. if r \<in> set vals then weigh F p (h r) else h r)"
    by (simp add: h1_def weigh_all_eq)
  have key1: "dedup_key (h1 r) = dedup_key (h r)" for r
    by (simp add: h1_eq dedup_key_weigh)
  have "distinct (map (\<lambda>r. dedup_key (h r)) vals)"
    unfolding vals_def by (rule dedup_seen_keys_distinct)
  then have dk: "distinct (map (\<lambda>r. dedup_key (h1 r)) out)"
    unfolding out_def sort_desc_def by (simp add: key1 distinct_map_take distinct_map_sort_key)
  have seen2: "dedup_seen h1 out [] = map (\<lambda>r. (dedup_key (h1 r), r)) out"
    using dedup_seen_distinct_keys [OF dk, of "[]"] by simp
  have vals2: "map snd (dedup_seen h1 out []) = out"
    by (simp add: seen2 comp_def)
  have sub: "set out \<subseteq> set vals"
    unfolding out_def sort_desc_def by (auto dest: in_set_takeD)
  have h2: "weigh_all F p h1 out = h1"
  proof
    fix r
    show "weigh_all F p h1 out r = h1 r"
      using sub by (auto simp: weigh_all_eq h1_eq weigh_idem)
  qed
  have srt: "sort_desc (\<lambda>r. get_final_score (h1 r)) out = out"
    unfolding out_def by (rule sort_desc_take_id)
  have tk: "take (nat top_k) out = out"
    unfolding out_def by simp
  have "deduplicate_chunks F h1 out p top_k = (h1, out)"
    by (simp add: deduplicate_chunks_def Let_def vals2 h2 srt py_prefix_nonneg [OF k] tk)
  then show ?thesis by (simp add: first)
qed

theorem C5_dedup_idempotent_nonnegative_top_k_witness:
  "(0 :: int) \<le> 1
   \<and> snd (deduplicate_chunks no_parse tier_boundary [0, 1] (Some (day 1000)) 1) = [1]
   \<and> deduplicate_chunks no_parse
        (fst (deduplicate_chunks no_parse tier_boundary [0, 1] (Some (day 1000)) 1)) [1]
        (Some (day 1000)) 1
      = deduplicate_chunks no_parse tier_boundary [0, 1] (Some (day 1000)) 1"
proof -
  have k: "(0 :: int) \<le> 1" by simp
  have out: "snd (deduplicate_chunks no_parse tier_boundary [0, 1] (Some (day 1000)) 1) = [1]"
    by (simp add: deduplicate_chunks_def Let_def seen_step_def dedup_key_def get_title_def
        get_timestamp_def get_rerank_score_def tier_boundary_def empty_dict_def weigh_def day_def
        compute_time_bonus_def sort_desc_def py_prefix_def get_final_score_def truthy_def
        parse_timestamp_def tier_bonus_def)
  from C5_dedup_idempotent_nonnegative_top_k [OF k, of no_parse tier_boundary "[0, 1]" "Some (day 1000)"]
  show ?thesis unfolding out using out by simp
qed

section \<open>Chunker construction\<close>

text \<open>
  C8, as stated: a configuration with \<open>overlap \<ge> target_size\<close> is rejected at construction
  time. It is not: with target 800, max 1000, overlap 900 and absolute maximum 1200 the
  constructor returns a chunker holding exactly these values.
\<close>

theorem C8_counterexample:
  "PolicyDocumentChunker_init 800 1000 900 1200 =
     Inr \<lparr>chunk_size_target = 800, chunk_size_max = 1000, overlap = 900, absolute_max = 1200\<rparr>
   \<and> \<not> raises (PolicyDocumentChunker_init 800 1000 900 1200)"
  by (simp add: PolicyDocumentChunker_init_def raises_def)

text \<open>
  C8, amended: the constructor validates nothing. For every four integers it returns a
  chunker whose fields are the arguments, and it never raises.
\<close>

theorem C8_init_accepts_every_configuration:
  "PolicyDocumentChunker_init target mx ov amax =
     Inr \<lparr>chunk_size_target = target, chunk_size_max = mx, overlap = ov, absolute_max = amax\<rparr>
   \<and> \<not> raises (PolicyDocumentChunker_init target mx ov amax)"
  by (simp add: PolicyDocumentChunker_init_def raises_def)

section \<open>Effects on the caller's candidates\<close>










lemma rank_fields_trans:
  assumes "c1 = (c :: candidate)\<lparr>rerank_score := a, original_rank := b\<rparr>"
    and "c2 = c1\<lparr>rerank_score := a', original_rank := b'\<rparr>"
  shows "c2 = c\<lparr>rerank_score := a', original_rank := b'\<rparr>"
  using assms by simp












section \<open>Merging the fragments' hits\<close>














lemma tagged_hits_index: "(j, ht) \<in> set (tagged_hits search k i qs) \<Longrightarrow> i \<le> j \<and> j < i + length qs"
  by (induction qs arbitrary: i) (auto, fastforce+)














section \<open>Properties of the merge by document\<close>


lemma update_keys_set: "fst ` set (AList.update k v al) = insert k (fst ` set al)"
  by (simp add: dom_update)






















lemma last_dropWhile: "dropWhile P xs \<noteq> [] \<Longrightarrow> last (dropWhile P xs) = last xs"
  by (metis last_appendR takeWhile_dropWhile_id)

lemma lstrip_clean: "lstrip s \<noteq> [] \<Longrightarrow> \<not> is_space (hd (lstrip s))"
  unfolding lstrip_def by (rule hd_dropWhile)

lemma rstrip_clean: "rstrip s \<noteq> [] \<Longrightarrow> \<not> is_space (last (rstrip s))"
  unfolding rstrip_def using hd_dropWhile [of is_space "rev s"] by (simp add: last_rev)

lemma lstrip_id: "s = [] \<or> \<not> is_space (hd s) \<Longrightarrow> lstrip s = s"
  unfolding lstrip_def by (simp add: dropWhile_eq_self_iff)


lemma strip_clean:
  assumes "strip s \<noteq> []"
  shows "\<not> is_space (hd (strip s)) \<and> \<not> is_space (last (strip s))"
proof -
  have a: "\<not> is_space (hd (strip s))" using assms unfolding strip_def by (rule lstrip_clean)
  from assms have ne: "rstrip s \<noteq> []" by (auto simp: strip_def lstrip_def)
  have "last (strip s) = last (rstrip s)"
    using assms unfolding strip_def lstrip_def by (rule last_dropWhile)
  with rstrip_clean [OF ne] a show ?thesis by simp
qed





















































section \<open>Completeness of the merge\<close>




section \<open>Candidates without a document id\<close>




section \<open>Properties of the chunker\<close>

lemma rfind_cases:
  "rfind s sub = - 1 \<or> (\<exists>i. rfind s sub = int i \<and> i + length sub \<le> length s \<and> occurs_at s sub i)"
proof (cases "filter (occurs_at s sub) (rev [0..<Suc (length s - length sub)])")
  case Nil
  then show ?thesis by (simp add: rfind_def)
next
  case (Cons i rest)
  then have "i \<in> set (filter (occurs_at s sub) (rev [0..<Suc (length s - length sub)]))" by simp
  then have occ: "occurs_at s sub i" and "i \<le> length s - length sub"
    by (auto simp del: upt_Suc)
  from occ have "length (take (length sub) (drop i s)) = length sub"
    unfolding occurs_at_def by simp
  then have "length sub \<le> length s - i" by simp
  then have "i + length sub \<le> length s \<or> length sub = 0" by (cases "length sub") auto
  moreover have "length sub = 0 \<Longrightarrow> i + length sub \<le> length s"
    using \<open>i \<le> length s - length sub\<close> by simp
  ultimately have "i + length sub \<le> length s" by blast
  with Cons occ show ?thesis by (auto simp: rfind_def)
qed

lemma rfind_ge: "- 1 \<le> rfind s sub"
  using rfind_cases [of s sub] by auto

lemma rfind_bound: "rfind s sub + int (length sub) \<le> int (length s) \<or> rfind s sub = - 1"
  using rfind_cases [of s sub] by auto

lemma length_lstrip: "length (lstrip s) \<le> length s"
  by (simp add: lstrip_def length_dropWhile_le)

lemma length_rstrip: "length (rstrip s) \<le> length s"
  using length_dropWhile_le [of is_space "rev s"] by (simp add: rstrip_def)

lemma length_strip: "length (strip s) \<le> length s"
  using length_lstrip [of "rstrip s"] length_rstrip [of s] by (simp add: strip_def)

lemma paragraph_step_bound:
  assumes "- 1 \<le> fst best \<and> fst best \<le> int (length t)"
  shows "- 1 \<le> fst (paragraph_step t M best d) \<and> fst (paragraph_step t M best d) \<le> int (length t)"
proof -
  from rfind_bound [of t d] rfind_ge [of t d] assms show ?thesis
    by (auto simp: paragraph_step_def Let_def)
qed

lemma sentence_step_bound:
  assumes "- 1 \<le> fst best \<and> fst best \<le> int (length t)"
  shows "- 1 \<le> fst (sentence_step t M best d) \<and> fst (sentence_step t M best d) \<le> int (length t)"
proof -
  from rfind_bound [of t d] rfind_ge [of t d] assms show ?thesis
    by (auto simp: sentence_step_def Let_def)
qed

lemma paragraph_fold_bound:
  "- 1 \<le> fst best \<and> fst best \<le> int (length t) \<Longrightarrow>
     - 1 \<le> fst (foldl (paragraph_step t M) best ds) \<and> fst (foldl (paragraph_step t M) best ds) \<le> int (length t)"
proof (induction ds arbitrary: best)
  case Nil
  then show ?case by simp
next
  case (Cons d ds)
  from Cons.IH [OF paragraph_step_bound [OF Cons.prems]] show ?case by simp
qed

lemma sentence_fold_bound:
  "- 1 \<le> fst best \<and> fst best \<le> int (length t) \<Longrightarrow>
     - 1 \<le> fst (foldl (sentence_step t M) best ds) \<and> fst (foldl (sentence_step t M) best ds) \<le> int (length t)"
proof (induction ds arbitrary: best)
  case Nil
  then show ?case by simp
next
  case (Cons d ds)
  from Cons.IH [OF sentence_step_bound [OF Cons.prems]] show ?case by simp
qed

lemma best_cut_bound: "- 1 \<le> fst (best_cut t M) \<and> fst (best_cut t M) \<le> int (length t)"
proof -
  have "- 1 \<le> fst (- 1 :: int, - 1 :: int) \<and> fst (- 1 :: int, - 1 :: int) \<le> int (length t)" by simp
  from paragraph_fold_bound [OF this]
  have p: "- 1 \<le> fst (foldl (paragraph_step t M) (- 1, - 1) paragraph_delimiters)
      \<and> fst (foldl (paragraph_step t M) (- 1, - 1) paragraph_delimiters) \<le> int (length t)" .
  from sentence_fold_bound [OF p] p show ?thesis
    by (simp add: best_cut_def Let_def)
qed

lemma smart_truncate_le:
  assumes "0 \<le> M"
  shows "int (length (smart_truncate text M)) \<le> M"
proof (cases "int (length text) \<le> M")
  case True
  then show ?thesis by (simp add: smart_truncate_def)
next
  case False
  let ?t = "py_prefix M text"
  have lt: "int (length ?t) = M" using assms False by (simp add: py_prefix_def)
  have bc: "fst (best_cut ?t M) \<le> M" using best_cut_bound [of ?t M] lt by simp
  have sp: "rfind ?t [32] \<le> M" using rfind_bound [of ?t "[32]"] lt assms by auto
  have a: "int (length (strip (py_prefix k text))) \<le> M" if "0 < k" "k \<le> M" for k
  proof -
    have "int (length (py_prefix k text)) \<le> k" using that by (simp add: py_prefix_def)
    with length_strip [of "py_prefix k text"] that show ?thesis by linarith
  qed
  have b: "int (length (strip ?t)) \<le> M" using length_strip [of ?t] lt by linarith
  show ?thesis
  proof (cases "0 < fst (best_cut ?t M)")
    case True
    with False a [OF True bc] show ?thesis by (simp add: smart_truncate_def Let_def)
  next
    case nb: False
    show ?thesis
    proof (cases "real_of_int (rfind ?t [32]) > real_of_int M * 0.8")
      case True
      have "0 \<le> real_of_int M * 0.8" using assms by simp
      with True have "0 < real_of_int (rfind ?t [32])" by linarith
      then have "0 < rfind ?t [32]" by simp
      from a [OF this sp] False nb True show ?thesis by (simp add: smart_truncate_def Let_def)
    next
      case False
      with \<open>\<not> int (length text) \<le> M\<close> nb b show ?thesis by (simp add: smart_truncate_def Let_def)
    qed
  qed
qed

lemma enforce_max_le:
  "0 \<le> absolute_max ck \<Longrightarrow> int (length (DocumentChunk.content (enforce_max ck c))) \<le> absolute_max ck"
  using smart_truncate_le [of "absolute_max ck" "DocumentChunk.content c"]
  by (simp add: enforce_max_def)

lemma py_prefix_shorter:
  "text \<noteq> [] \<Longrightarrow> k < int (length text) \<Longrightarrow> length (py_prefix k text) < length text"
proof (cases "0 \<le> k")
  case True
  assume "k < int (length text)"
  with True show ?thesis by (simp add: py_prefix_def)
next
  case False
  assume "text \<noteq> []"
  then have "0 < length text" by simp
  with False have "nat (int (length text) + k) < length text" by linarith
  with False show ?thesis by (simp add: py_prefix_def)
qed

lemma smart_truncate_shorter:
  assumes "M < 0" and "text \<noteq> []"
  shows "length (smart_truncate text M) < length text"
proof -
  let ?t = "py_prefix M text"
  have nle: "\<not> int (length text) \<le> M" using assms by simp
  have lt: "length ?t < length text" using assms by (intro py_prefix_shorter) simp_all
  have bc: "fst (best_cut ?t M) < int (length text)"
    using best_cut_bound [of ?t M] lt by linarith
  have sp: "rfind ?t [32] < int (length text)"
    using rfind_bound [of ?t "[32]"] lt by auto
  have a: "length (strip (py_prefix k text)) < length text" if "k < int (length text)" for k
    using py_prefix_shorter [OF assms(2) that] length_strip [of "py_prefix k text"] by linarith
  have b: "length (strip ?t) < length text" using length_strip [of ?t] lt by linarith
  show ?thesis
    using nle a [OF bc] a [OF sp] b by (simp add: smart_truncate_def Let_def)
qed

lemma lstrip_keeps_last:
  assumes "s \<noteq> []" and "\<not> is_space (last s)"
  shows "lstrip s \<noteq> [] \<and> last (lstrip s) = last s"
proof -
  have "last s \<in> set s" using assms(1) by simp
  with assms(2) have ne: "dropWhile is_space s \<noteq> []" by (auto simp: dropWhile_eq_Nil_conv)
  from last_dropWhile [OF ne] ne show ?thesis by (simp add: lstrip_def)
qed

lemma split_long_diverges_aux:
  assumes "split_long ck doc remaining chs idx = Some y"
  shows "\<not> (absolute_max ck < 0 \<and> remaining \<noteq> [] \<and> \<not> is_space (last remaining))"
proof (rule split_long.raw_induct
    [where P = "\<lambda>ck doc remaining chs idx y.
        \<not> (absolute_max ck < 0 \<and> remaining \<noteq> [] \<and> \<not> is_space (last remaining))",
     OF _ assms])
  fix f :: "chunker \<Rightarrow> document \<Rightarrow> pystr \<Rightarrow> DocumentChunk list \<Rightarrow> int \<Rightarrow> (DocumentChunk list \<times> int) option"
  fix ck doc remaining chs idx y
  assume IH: "\<And>ck doc remaining chs idx y. f ck doc remaining chs idx = Some y \<Longrightarrow>
      \<not> (absolute_max ck < 0 \<and> remaining \<noteq> [] \<and> \<not> is_space (last remaining))"
  assume body: "(if 0 < length remaining
      then if int (length remaining) \<le> absolute_max ck
           then if remaining \<noteq> []
                then f ck doc [] (chs @ [make_chunk doc idx paragraph_type remaining]) (idx + 1)
                else f ck doc [] chs idx
           else if smart_truncate remaining (absolute_max ck) \<noteq> []
                then f ck doc (lstrip (drop (length (smart_truncate remaining (absolute_max ck))) remaining))
                      (chs @ [make_chunk doc idx paragraph_type (smart_truncate remaining (absolute_max ck))])
                      (idx + 1)
                else f ck doc (lstrip (drop (length (smart_truncate remaining (absolute_max ck))) remaining))
                      chs idx
      else Some (chs, idx)) = Some y"
  show "\<not> (absolute_max ck < 0 \<and> remaining \<noteq> [] \<and> \<not> is_space (last remaining))"
  proof
    assume a: "absolute_max ck < 0 \<and> remaining \<noteq> [] \<and> \<not> is_space (last remaining)"
    let ?cp = "smart_truncate remaining (absolute_max ck)"
    let ?r = "lstrip (drop (length ?cp) remaining)"
    from a have sh: "length ?cp < length remaining" by (simp add: smart_truncate_shorter)
    then have dne: "drop (length ?cp) remaining \<noteq> []" by simp
    have dl: "last (drop (length ?cp) remaining) = last remaining" using sh by simp
    from lstrip_keeps_last [OF dne] dl a have r: "?r \<noteq> [] \<and> \<not> is_space (last ?r)" by simp
    from a have nle: "\<not> int (length remaining) \<le> absolute_max ck" by simp
    from body a nle obtain chs' idx' where "f ck doc ?r chs' idx' = Some y"
      by (auto split: if_splits)
    from IH [OF this] a r show False by simp
  qed
qed

lemma split_long_diverges:
  assumes "absolute_max ck < 0" and "remaining \<noteq> []" and "\<not> is_space (last remaining)"
  shows "split_long ck doc remaining chs idx = None"
proof (cases "split_long ck doc remaining chs idx")
  case None
  then show ?thesis .
next
  case (Some y)
  from split_long_diverges_aux [OF Some] assms show ?thesis by simp
qed

lemma rev_split_while: "xs = rev (dropWhile P (rev xs)) @ rev (takeWhile P (rev xs))"
proof -
  have "rev (rev xs) = rev (takeWhile P (rev xs) @ dropWhile P (rev xs))"
    by (simp only: takeWhile_dropWhile_id)
  then show ?thesis by (simp only: rev_append rev_rev_ident)
qed

lemma rstrip_prefix: "\<exists>sp. s = rstrip s @ sp"
  unfolding rstrip_def using rev_split_while [of s is_space] by blast

lemma strip_nonempty:
  assumes "s \<noteq> []" and "\<not> is_space (hd s)"
  shows "strip s \<noteq> []"
proof -
  have "hd s \<in> set (rev s)" using assms(1) by simp
  with assms(2) have "dropWhile is_space (rev s) \<noteq> []" by (auto simp: dropWhile_eq_Nil_conv)
  then have ne: "rstrip s \<noteq> []" by (simp add: rstrip_def)
  from rstrip_prefix [of s] obtain sp where "s = rstrip s @ sp" by blast
  with ne have "hd (rstrip s) = hd s" by (metis hd_append2)
  with assms(2) ne have "lstrip (rstrip s) = rstrip s" by (simp add: lstrip_id)
  with ne show ?thesis by (simp add: strip_def)
qed

lemma strip_prefix_nonempty:
  assumes "text \<noteq> []" and "\<not> is_space (hd text)" and "0 < k"
  shows "strip (py_prefix k text) \<noteq> []"
proof -
  have "py_prefix k text = take (nat k) text" using assms(3) by (simp add: py_prefix_def)
  moreover have "take (nat k) text \<noteq> []" using assms(1,3) by simp
  moreover have "hd (take (nat k) text) = hd text" using assms(3) by (simp add: hd_take)
  ultimately show ?thesis using assms(2) by (simp add: strip_nonempty)
qed

lemma smart_truncate_nonempty:
  assumes "1 \<le> M" and "text \<noteq> []" and "\<not> is_space (hd text)"
  shows "smart_truncate text M \<noteq> []"
proof (cases "int (length text) \<le> M")
  case True
  with assms show ?thesis by (simp add: smart_truncate_def)
next
  case False
  let ?t = "py_prefix M text"
  have t: "strip ?t \<noteq> []" using assms by (intro strip_prefix_nonempty) simp_all
  show ?thesis
  proof (cases "0 < fst (best_cut ?t M)")
    case True
    from strip_prefix_nonempty [OF assms(2,3) True] False True show ?thesis
      by (simp add: smart_truncate_def Let_def)
  next
    case nb: False
    show ?thesis
    proof (cases "real_of_int (rfind ?t [32]) > real_of_int M * 0.8")
      case True
      have "0 \<le> real_of_int M * 0.8" using assms(1) by simp
      with True have "0 < real_of_int (rfind ?t [32])" by linarith
      then have "0 < rfind ?t [32]" by simp
      from strip_prefix_nonempty [OF assms(2,3) this] False nb True show ?thesis
        by (simp add: smart_truncate_def Let_def)
    next
      case F: False
      with False nb t show ?thesis by (simp add: smart_truncate_def Let_def)
    qed
  qed
qed

lemma split_long_returns:
  assumes "1 \<le> absolute_max ck" and "clean remaining"
  shows "\<exists>r. split_long ck doc remaining chs idx = Some r"
  using assms(2)
proof (induction remaining arbitrary: chs idx rule: length_induct)
  case (1 remaining)
  show ?case
  proof (cases "remaining = []")
    case True
    then show ?thesis by (subst split_long.simps) simp
  next
    case ne: False
    show ?thesis
    proof (cases "int (length remaining) \<le> absolute_max ck")
      case True
      have "\<exists>r. split_long ck doc [] (chs @ [make_chunk doc idx paragraph_type remaining]) (idx + 1) = Some r"
        by (subst split_long.simps) simp
      with ne True show ?thesis by (subst split_long.simps) simp
    next
      case False
      let ?cp = "smart_truncate remaining (absolute_max ck)"
      let ?r = "lstrip (drop (length ?cp) remaining)"
      from "1.prems" ne have hd: "\<not> is_space (hd remaining)" by (simp add: clean_def)
      from smart_truncate_nonempty [OF assms(1) ne hd] have cp: "?cp \<noteq> []" .
      have "length ?r \<le> length (drop (length ?cp) remaining)" by (rule length_lstrip)
      also have "\<dots> < length remaining" using cp ne by simp
      finally have sh: "length ?r < length remaining" .
      have cl: "clean ?r" using lstrip_clean [of "drop (length ?cp) remaining"] by (auto simp: clean_def)
      from "1.IH" sh cl obtain r where
        "split_long ck doc ?r (chs @ [make_chunk doc idx paragraph_type ?cp]) (idx + 1) = Some r"
        by blast
      with ne False cp show ?thesis by (subst split_long.simps) simp
    qed
  qed
qed

lemma paragraphs_stripped:
  assumes "p \<in> set (split_into_paragraphs content0)"
  shows "p \<noteq> [] \<and> \<not> is_space (hd p) \<and> \<not> is_space (last p)"
proof -
  from assms obtain q where "p = strip q" "strip q \<noteq> []"
    by (auto simp: split_into_paragraphs_def Let_def)
  with strip_clean [of q] show ?thesis by simp
qed

lemma loop_body_returns:
  assumes "1 \<le> absolute_max ck" and "clean para"
  shows "\<exists>st'. loop_body ck doc para st = Some st'"
proof (cases "int (length para) > absolute_max ck")
  case False
  then show ?thesis by (simp add: loop_body_def)
next
  case True
  let ?st1 = "if current_chunk_parts st \<noteq> []
      then (emit ck doc paragraph_type st)\<lparr>current_chunk_parts := [], current_chunk_size := 0\<rparr>
      else st"
  from split_long_returns [OF assms, of doc "chunking.chunks ?st1" "chunk_idx ?st1"] obtain r where
    "split_long ck doc para (chunking.chunks ?st1) (chunk_idx ?st1) = Some r" by blast
  with True show ?thesis by (cases r) (simp add: loop_body_def Let_def)
qed

lemma chunk_loop_returns:
  assumes "1 \<le> absolute_max ck" and "\<forall>p\<in>set paragraphs. clean p"
  shows "\<exists>st'. chunk_loop ck doc paragraphs st = Some st'"
  using assms(2)
proof (induction paragraphs arbitrary: st)
  case Nil
  show ?case by simp
next
  case (Cons p ps)
  from Cons.prems have "clean p" by simp
  from loop_body_returns [OF assms(1) this, of doc st] obtain st1 where
    st1: "loop_body ck doc p st = Some st1" by blast
  from Cons.IH [of st1] Cons.prems obtain st2 where "chunk_loop ck doc ps st1 = Some st2" by auto
  with st1 show ?case by simp
qed

lemma chunk_loop_diverges:
  assumes "absolute_max ck < 0" and "paragraphs \<noteq> []"
    and "\<forall>p\<in>set paragraphs. p \<noteq> [] \<and> \<not> is_space (last p)"
  shows "chunk_loop ck doc paragraphs st = None"
proof -
  from assms(2) obtain p ps where ps: "paragraphs = p # ps" by (cases paragraphs) auto
  with assms(3) have p: "p \<noteq> []" "\<not> is_space (last p)" by simp_all
  have long: "int (length p) > absolute_max ck" using assms(1) by simp
  have "loop_body ck doc p st = None"
    using long split_long_diverges [OF assms(1) p]
    by (simp add: loop_body_def Let_def)
  then show ?thesis by (simp add: ps)
qed

lemma ev0: "split_blank_lines [] three_paragraphs = [pa, pb, pc]"
  by (simp add: three_paragraphs_def pa_def pb_def pc_def is_space_def Let_def)

lemma sp: "is_space c \<Longrightarrow> c \<noteq> 97 \<and> c \<noteq> 98 \<and> c \<noteq> 99"
  by (auto simp: is_space_def)

lemma st: "strip pa = pa" "strip pb = pb" "strip pc = pc"
  by (simp_all add: strip_def lstrip_def rstrip_def pa_def pb_def pc_def is_space_def)

lemma ev1: "split_into_paragraphs three_paragraphs = [pa, pb, pc]"
  unfolding split_into_paragraphs_def ev0 Let_def
  by (simp add: st) (simp add: pa_def pb_def pc_def)

lemma cl: "\<not> is_clause_start pa" "\<not> is_clause_start pc"
  unfolding is_clause_start_def st
  by (simp_all add: clause_patterns_def match_run_def match_tag_def
      is_cn_numeral_def is_decimal_def decimal_ranges_def pa_def pc_def Let_def)

lemma rf: "rfind pb15 [10, 10] = - 1" "rfind pb15 [10, 10, 10] = - 1" "rfind pb15 [13, 10, 13, 10] = - 1"
  "rfind pb15 [12290] = - 1" "rfind pb15 [65281] = - 1" "rfind pb15 [65311] = - 1"
  "rfind pb15 [65307] = - 1" "rfind pb15 [32] = - 1"
  by (simp_all add: rfind_def occurs_at_def pb15_def)

lemma tr: "smart_truncate pb 15 = pb15"
proof -
  have p: "py_prefix 15 pb = pb15" by (simp add: py_prefix_def pb_def pb15_def)
  have l: "\<not> int (length pb) \<le> 15" by (simp add: pb_def)
  have b: "best_cut pb15 15 = (- 1, - 1)"
    by (simp add: best_cut_def paragraph_step_def sentence_step_def paragraph_delimiters_def
        sentence_delimiters_def rf Let_def)
  have s: "strip pb15 = pb15"
    by (simp add: strip_def lstrip_def rstrip_def pb15_def is_space_def)
  show ?thesis
    unfolding smart_truncate_def Let_def p using l by (simp add: b rf s)
qed

lemma rest: "lstrip (drop (length pb15) pb) = pb5"
  by (simp add: lstrip_def pb_def pb15_def pb5_def is_space_def)

lemma sl: "split_long small_chunker doc pb chs idx
    = Some (chs @ [make_chunk doc idx paragraph_type pb15, make_chunk doc (idx + 1) paragraph_type pb5],
            idx + 2)"
proof -
  have m: "absolute_max small_chunker = 15" by (simp add: small_chunker_def)
  have e: "split_long small_chunker doc [] c i = Some (c, i)" for c i
    by (subst split_long.simps) simp
  have l5: "split_long small_chunker doc pb5 c i = Some (c @ [make_chunk doc i paragraph_type pb5], i + 1)" for c i
    by (subst split_long.simps) (simp add: m e, simp add: pb5_def)
  have n: "pb15 \<noteq> []" by (simp add: pb15_def)
  have big: "pb \<noteq> []" "\<not> length pb \<le> 15" by (simp_all add: pb_def)
  show ?thesis
    by (subst split_long.simps) (simp add: m tr rest l5 n big)
qed

lemma small_lengths: "length pa = 11" "length pb = 20" "length pc = 11" "length pb15 = 15" "length pb5 = 5"
  by (simp_all add: pa_def pb_def pc_def pb15_def pb5_def)

lemma small_truncate: "smart_truncate pa 15 = pa" "smart_truncate pc 15 = pc"
  by (simp_all add: smart_truncate_def small_lengths)

lemma chunk_document_small:
  "chunk_document small_chunker [100] [116] three_paragraphs [] [] [] [] []
     = Some [make_chunk small_doc 0 paragraph_type pa, make_chunk small_doc 1 paragraph_type pb15,
             make_chunk small_doc 2 paragraph_type pb5, make_chunk small_doc 3 paragraph_type pc]"
proof -
  have cfg: "absolute_max small_chunker = 15" "chunk_size_target small_chunker = 12"
    "chunk_size_max small_chunker = 14" "overlap small_chunker = 3"
    by (simp_all add: small_chunker_def)
  let ?st0 = "\<lparr>chunking.chunks = [], current_chunk_parts = [], current_chunk_size = 0, chunk_idx = 0\<rparr>"
  let ?st1 = "\<lparr>chunking.chunks = [], current_chunk_parts = [pa], current_chunk_size = 11, chunk_idx = 0\<rparr>"
  let ?st2 = "\<lparr>chunking.chunks = [make_chunk small_doc 0 paragraph_type pa,
      make_chunk small_doc 1 paragraph_type pb15, make_chunk small_doc 2 paragraph_type pb5],
      current_chunk_parts = [], current_chunk_size = 0, chunk_idx = 3\<rparr>"
  let ?st3 = "\<lparr>chunking.chunks = [make_chunk small_doc 0 paragraph_type pa,
      make_chunk small_doc 1 paragraph_type pb15, make_chunk small_doc 2 paragraph_type pb5],
      current_chunk_parts = [pc], current_chunk_size = 11, chunk_idx = 3\<rparr>"
  have s1: "loop_body small_chunker small_doc pa ?st0 = Some ?st1"
    by (simp add: loop_body_def add_paragraph_def cfg cl small_lengths Let_def)
  have s2: "loop_body small_chunker small_doc pb ?st1 = Some ?st2"
    by (simp add: loop_body_def cfg small_lengths Let_def emit_def small_truncate sl)
  have s3: "loop_body small_chunker small_doc pc ?st2 = Some ?st3"
    by (simp add: loop_body_def add_paragraph_def cfg cl small_lengths Let_def)
  have loop: "chunk_loop small_chunker small_doc [pa, pb, pc] ?st0 = Some ?st3"
    by (simp add: s1 s2 s3)
  have doc: "\<lparr>d_doc_id = [100], d_title = py_prefix 500 [116], d_timestamp = py_prefix 150 [],
      d_industries = py_prefix 500 [], d_investment_relevance = [], d_report_series = [],
      d_industry_policy_segments = []\<rparr> = small_doc"
    by (simp add: small_doc_def py_prefix_def)
  show ?thesis
    unfolding chunk_document_def Let_def ev1 doc loop
    by (simp add: emit_def enforce_max_def make_chunk_def cfg small_truncate small_lengths)
qed

section \<open>Chunk length\<close>

text \<open>
  C1: for every configuration and every document, every chunk in the list that
  \<open>chunk_document\<close> returns has a content of at most \<open>absolute_max\<close> characters. The call
  returns whenever \<open>absolute_max\<close> is at least 1; for an \<open>absolute_max\<close> below 0 it returns
  only for a document without paragraphs, with the empty list.
\<close>

theorem C1_chunk_length_bounded:
  "(\<forall>chunks. chunk_document ck doc_id0 title0 content0 timestamp0 industries0
                 investment_relevance0 report_series0 industry_policy_segments0 = Some chunks
        \<longrightarrow> (\<forall>c\<in>set chunks. int (length (DocumentChunk.content c)) \<le> absolute_max ck))
   \<and> (1 \<le> absolute_max ck
        \<longrightarrow> chunk_document ck doc_id0 title0 content0 timestamp0 industries0
              investment_relevance0 report_series0 industry_policy_segments0 \<noteq> None)"
proof -
  let ?doc = "\<lparr>d_doc_id = doc_id0, d_title = py_prefix 500 title0,
                 d_timestamp = py_prefix 150 timestamp0, d_industries = py_prefix 500 industries0,
                 d_investment_relevance = investment_relevance0,
                 d_report_series = report_series0,
                 d_industry_policy_segments = industry_policy_segments0\<rparr>"
  let ?ps = "split_into_paragraphs content0"
  let ?st0 = "\<lparr>chunking.chunks = [], current_chunk_parts = [], current_chunk_size = 0, chunk_idx = 0\<rparr>"
  let ?C = "chunk_document ck doc_id0 title0 content0 timestamp0 industries0
              investment_relevance0 report_series0 industry_policy_segments0"
  have unfold: "?C = (case chunk_loop ck ?doc ?ps ?st0 of
           None \<Rightarrow> None
         | Some st \<Rightarrow>
             Some (map (enforce_max ck)
                     (if current_chunk_parts st \<noteq> []
                      then chunking.chunks (emit ck ?doc paragraph_type st) else chunking.chunks st)))"
    by (simp add: chunk_document_def Let_def)
  have bounded: "\<forall>c\<in>set chunks. int (length (DocumentChunk.content c)) \<le> absolute_max ck"
    if ret: "?C = Some chunks" for chunks
  proof (cases "0 \<le> absolute_max ck")
    case True
    from ret obtain xs where "chunks = map (enforce_max ck) xs"
      unfolding unfold by (auto split: option.splits)
    with enforce_max_le [OF True] show ?thesis by simp
  next
    case False
    then have neg: "absolute_max ck < 0" by simp
    have "?ps = []"
    proof (rule ccontr)
      assume ne: "?ps \<noteq> []"
      have "\<forall>p\<in>set ?ps. p \<noteq> [] \<and> \<not> is_space (last p)"
        using paragraphs_stripped by blast
      from chunk_loop_diverges [OF neg ne this] have "chunk_loop ck ?doc ?ps ?st0 = None" .
      with ret show False unfolding unfold by simp
    qed
    with ret have "chunks = []" unfolding unfold by simp
    then show ?thesis by simp
  qed
  have returns: "?C \<noteq> None" if pos: "1 \<le> absolute_max ck"
  proof -
    have "\<forall>p\<in>set ?ps. clean p" using paragraphs_stripped by (auto simp: clean_def)
    from chunk_loop_returns [OF pos this, of ?doc ?st0] show ?thesis
      unfolding unfold by auto
  qed
  from bounded returns show ?thesis by blast
qed

theorem C1_chunk_length_bounded_witness:
  "chunk_document small_chunker [100] [116] three_paragraphs [] [] [] [] [] \<noteq> None
   \<and> map_option (map (\<lambda>c. length (DocumentChunk.content c)))
         (chunk_document small_chunker [100] [116] three_paragraphs [] [] [] [] []) = Some [11, 15, 5, 11]
   \<and> list_all (\<lambda>c. int (length (DocumentChunk.content c)) \<le> absolute_max small_chunker)
         [make_chunk small_doc 0 paragraph_type pa, make_chunk small_doc 1 paragraph_type pb15,
          make_chunk small_doc 2 paragraph_type pb5, make_chunk small_doc 3 paragraph_type pc]
   \<and> absolute_max small_chunker = 15"
proof -
  note C = C1_chunk_length_bounded [of small_chunker "[100]" "[116]" three_paragraphs "[]" "[]" "[]" "[]" "[]"]
  have m: "absolute_max small_chunker = 15" by (simp add: small_chunker_def)
  then have "1 \<le> absolute_max small_chunker" by simp
  with C have a: "chunk_document small_chunker [100] [116] three_paragraphs [] [] [] [] [] \<noteq> None"
    by blast
  from C chunk_document_small
  have b: "\<forall>c\<in>set [make_chunk small_doc 0 paragraph_type pa, make_chunk small_doc 1 paragraph_type pb15,
          make_chunk small_doc 2 paragraph_type pb5, make_chunk small_doc 3 paragraph_type pc].
      int (length (DocumentChunk.content c)) \<le> absolute_max small_chunker" by blast
  have c: "map_option (map (\<lambda>c. length (DocumentChunk.content c)))
         (chunk_document small_chunker [100] [116] three_paragraphs [] [] [] [] []) = Some [11, 15, 5, 11]"
    unfolding chunk_document_small by (simp add: make_chunk_def small_lengths)
  from a b c m show ?thesis by (simp add: list_all_iff)
qed

end
